theory Spec2Isabelle
  imports Main "HOL-Library.Sublist" "HOL-Library.Word"
begin

section \<open>Values decoded from JSON\<close>

text \<open>
  \<^verbatim>\<open>response.json()\<close> yields Python values built from \<^verbatim>\<open>None\<close>, \<^verbatim>\<open>bool\<close>,
  \<^verbatim>\<open>int\<close>, \<^verbatim>\<open>float\<close>, \<^verbatim>\<open>str\<close>, \<^verbatim>\<open>list\<close> and \<^verbatim>\<open>dict\<close>. A \<^verbatim>\<open>str\<close> is
  kept as its UTF-8 bytes, a \<^verbatim>\<open>float\<close> as the 64 bits of its IEEE double, a \<^verbatim>\<open>dict\<close>
  as an association list read with \<open>map_of\<close>.
\<close>

datatype json =
    JNull
  | JBool bool
  | JInt int
  | JFloat "64 word"
  | JStr string
  | JArr "json list"
  | JObj "(string \<times> json) list"

datatype py_error =
    KeyError string
  | TypeError
  | AttributeError
  | FileNotFoundError string

text \<open>Python truthiness, as \<^verbatim>\<open>not data\<close> and \<^verbatim>\<open>x if c else y\<close> test it.\<close>

fun truthy :: "json \<Rightarrow> bool" where
  "truthy JNull = False"
| "truthy (JBool b) = b"
| "truthy (JInt n) = (n \<noteq> 0)"
| "truthy (JFloat w) = (w \<noteq> 0 \<and> w \<noteq> 0x8000000000000000)"
| "truthy (JStr s) = (s \<noteq> [])"
| "truthy (JArr xs) = (xs \<noteq> [])"
| "truthy (JObj kvs) = (kvs \<noteq> [])"

text \<open>\<^verbatim>\<open>x[key]\<close> with a \<^verbatim>\<open>str\<close> key: only a \<^verbatim>\<open>dict\<close> accepts it.\<close>

fun subscript :: "json \<Rightarrow> string \<Rightarrow> py_error + json" where
  "subscript (JObj kvs) key =
     (case map_of kvs key of None \<Rightarrow> Inl (KeyError key) | Some v \<Rightarrow> Inr v)"
| "subscript _ key = Inl TypeError"

text \<open>\<^verbatim>\<open>x.get(key, default)\<close>: only a \<^verbatim>\<open>dict\<close> has the method.\<close>

fun dict_get :: "json \<Rightarrow> string \<Rightarrow> json \<Rightarrow> py_error + json" where
  "dict_get (JObj kvs) key dflt =
     (case map_of kvs key of None \<Rightarrow> Inr dflt | Some v \<Rightarrow> Inr v)"
| "dict_get _ key dflt = Inl AttributeError"

text \<open>
  \<^verbatim>\<open>for x in v\<close>: a list gives its elements, a \<^verbatim>\<open>dict\<close> its keys in the order
  of their first entry, a \<^verbatim>\<open>str\<close> its characters (each a \<^verbatim>\<open>str\<close>; one per byte
  here), anything else is not iterable.
\<close>

fun py_iter :: "json \<Rightarrow> py_error + json list" where
  "py_iter (JArr xs) = Inr xs"
| "py_iter (JObj kvs) = Inr (map JStr (rev (remdups (rev (map fst kvs)))))"
| "py_iter (JStr s) = Inr (map (\<lambda>c. JStr [c]) s)"
| "py_iter _ = Inl TypeError"

text \<open>Sequencing of expressions that may raise: the first exception wins.\<close>

definition try_bind :: "'e + 'a \<Rightarrow> ('a \<Rightarrow> 'e + 'b) \<Rightarrow> 'e + 'b" where
  "try_bind m f = (case m of Inl e \<Rightarrow> Inl e | Inr v \<Rightarrow> f v)"

fun map_result :: "('a \<Rightarrow> 'e + 'b) \<Rightarrow> 'a list \<Rightarrow> 'e + 'b list" where
  "map_result f [] = Inr []"
| "map_result f (x # xs) =
     try_bind (f x) (\<lambda>y. try_bind (map_result f xs) (\<lambda>ys. Inr (y # ys)))"

section \<open>The image template substitution\<close>

text \<open>
  \<^verbatim>\<open>str.replace(old, new)\<close>: every occurrence of \<open>old\<close>, leftmost first and without
  overlap, is replaced by \<open>new\<close>; an empty \<open>old\<close> matches between all characters.
\<close>

fun replace_nonempty :: "string \<Rightarrow> string \<Rightarrow> string \<Rightarrow> string" where
  "replace_nonempty old new [] = []"
| "replace_nonempty old new (c # cs) =
     (if old \<noteq> [] \<and> prefix old (c # cs)
      then new @ replace_nonempty old new (drop (length old) (c # cs))
      else c # replace_nonempty old new cs)"

definition str_replace :: "string \<Rightarrow> string \<Rightarrow> string \<Rightarrow> string" where
  "str_replace old new s =
     (if old = [] then new @ concat (map (\<lambda>c. c # new) s)
      else replace_nonempty old new s)"

definition template :: string where
  "template = ''${screen}.${format}''"

definition fullhd_jpg :: string where
  "fullhd_jpg = ''fullhd.jpg''"

definition resolve_url :: "string \<Rightarrow> string" where
  "resolve_url url = str_replace template fullhd_jpg url"

text \<open>\<^verbatim>\<open>v.replace(...)\<close> on a decoded value: only a \<^verbatim>\<open>str\<close> has the method.\<close>

fun replace_method :: "json \<Rightarrow> py_error + string" where
  "replace_method (JStr s) = Inr (resolve_url s)"
| "replace_method _ = Inl AttributeError"

text \<open>Occurrence of a text inside another, and the two placeholders of a template.\<close>

fun contains :: "string \<Rightarrow> string \<Rightarrow> bool" where
  "contains sub [] = (sub = [])"
| "contains sub (c # cs) = (prefix sub (c # cs) \<or> contains sub cs)"

definition has_placeholder :: "string \<Rightarrow> bool" where
  "has_placeholder s = (contains ''${screen}'' s \<or> contains ''${format}'' s)"

section \<open>One product of a page made into an output item\<close>

text \<open>
  The \<^verbatim>\<open>dict\<close> literal appended in \<^verbatim>\<open>parse_category\<close> (lines 77 to 85), its
  values evaluated in the order they are written. The default of \<^verbatim>\<open>brand\<close> and
  \<^verbatim>\<open>type\<close> is the Russian text for "not specified", in UTF-8.
\<close>

record item =
  item_id :: json
  item_name :: json
  item_brand :: json
  item_type :: json
  item_photos :: "string list"
  item_in_stock :: json
  item_price :: json

definition not_specified :: string where
  "not_specified =
     [CHR 0xD0, CHR 0x9D, CHR 0xD0, CHR 0xB5, CHR 0x20, CHR 0xD1, CHR 0x83, CHR 0xD0, CHR 0xBA,
      CHR 0xD0, CHR 0xB0, CHR 0xD0, CHR 0xB7, CHR 0xD0, CHR 0xB0, CHR 0xD0, CHR 0xBD]"

definition photos_of :: "json \<Rightarrow> py_error + string list" where
  "photos_of product =
     try_bind (subscript product ''imageUrls'') (\<lambda>imgs.
     try_bind (py_iter imgs) (\<lambda>entries.
     map_result (\<lambda>img. try_bind (subscript img ''url'') replace_method) entries))"

definition price_of :: "json \<Rightarrow> py_error + json" where
  "price_of product =
     try_bind (subscript product ''price'') (\<lambda>container.
     try_bind (subscript container ''actual'') (\<lambda>actual.
     if truthy actual
     then try_bind (subscript product ''price'') (\<lambda>container'.
          try_bind (subscript container' ''actual'') (\<lambda>actual'.
          subscript actual' ''amount''))
     else Inr JNull))"

definition make_item :: "json \<Rightarrow> py_error + item" where
  "make_item product =
     try_bind (subscript product ''itemId'') (\<lambda>v_id.
     try_bind (subscript product ''name'') (\<lambda>v_name.
     try_bind (dict_get product ''brand'' (JStr not_specified)) (\<lambda>v_brand.
     try_bind (dict_get product ''productType'' (JStr not_specified)) (\<lambda>v_type.
     try_bind (photos_of product) (\<lambda>v_photos.
     try_bind (subscript product ''inStock'') (\<lambda>v_stock.
     try_bind (price_of product) (\<lambda>v_price.
     Inr \<lparr>item_id = v_id, item_name = v_name, item_brand = v_brand, item_type = v_type,
          item_photos = v_photos, item_in_stock = v_stock, item_price = v_price\<rparr>)))))))"

text \<open>The item as the \<^verbatim>\<open>dict\<close> handed to \<^verbatim>\<open>json.dumps\<close>, keys in insertion order.\<close>

definition item_json :: "item \<Rightarrow> json" where
  "item_json r =
     JObj [(''id'', item_id r), (''name'', item_name r), (''brand'', item_brand r),
           (''type'', item_type r), (''photos'', JArr (map JStr (item_photos r))),
           (''in_stock'', item_in_stock r), (''price'', item_price r)]"

section \<open>Fetching one page\<close>

text \<open>
  The parser object, the request \<^verbatim>\<open>fetch_page\<close> sends and what the network answers.
  \<^verbatim>\<open>session.get\<close> either raises (connection refused, proxy unreachable, timeout)
  or gives a response with a status; \<^verbatim>\<open>response.json()\<close> either decodes the body or
  raises. The answer is taken to be a function of the request.
\<close>

record parser =
  category_ids_file :: string
  output_file :: string
  city_id :: string
  proxies_file :: string

record page_request =
  req_url :: string
  req_categoryId :: string
  req_cityId :: string
  req_pageNumber :: nat
  req_z :: string
  req_user_agent :: string
  req_proxy :: string

datatype reply =
    TransportFailure string
  | HttpReply nat "json option"

type_synonym network = "page_request \<Rightarrow> reply"

definition BASE_URL :: string where
  "BASE_URL = ''https://goldapple.ru/front/api/catalog/products''"

definition USER_AGENT :: string where
  "USER_AGENT = ''Mozilla/5.0 (Windows NT 10.0; Win64; x64) AppleWebKit/537.36 (KHTML, like Gecko) Chrome/86.0.4240.198 Safari/537.36''"

definition request_for :: "parser \<Rightarrow> string \<Rightarrow> nat \<Rightarrow> string \<Rightarrow> page_request" where
  "request_for self category_id page_number proxy =
     \<lparr>req_url = BASE_URL, req_categoryId = category_id, req_cityId = city_id self,
      req_pageNumber = page_number, req_z = ''16-46'', req_user_agent = USER_AGENT,
      req_proxy = proxy\<rparr>"

text \<open>
  \<^verbatim>\<open>fetch_page\<close>: the decoded body on status 200, and \<^verbatim>\<open>None\<close> (here \<open>JNull\<close>) on any
  other status and on every exception, which the \<^verbatim>\<open>except Exception\<close> clause catches
  and prints.
\<close>

definition fetch_page :: "parser \<Rightarrow> network \<Rightarrow> string \<Rightarrow> nat \<Rightarrow> string \<Rightarrow> json" where
  "fetch_page self net category_id page_number proxy =
     (case net (request_for self category_id page_number proxy) of
        TransportFailure cause \<Rightarrow> JNull
      | HttpReply status body \<Rightarrow>
          if status = 200 then (case body of None \<Rightarrow> JNull | Some data \<Rightarrow> data)
          else JNull)"

section \<open>Crawling one category\<close>

text \<open>
  The test \<^verbatim>\<open>if not data or not data["data"]["products"]: break\<close>: \<open>Inr None\<close> is the
  break, \<open>Inr (Some products)\<close> the product list of a page that goes on, \<open>Inl\<close> an
  exception of the subscripts.
\<close>

definition page_products :: "json \<Rightarrow> py_error + json option" where
  "page_products data =
     (if \<not> truthy data then Inr None
      else try_bind (subscript data ''data'') (\<lambda>d.
           try_bind (subscript d ''products'') (\<lambda>products.
           if \<not> truthy products then Inr None else Inr (Some products))))"

text \<open>The \<^verbatim>\<open>for\<close> loop over the products of one page.\<close>

definition page_items :: "json \<Rightarrow> py_error + item list" where
  "page_items products = try_bind (py_iter products) (map_result make_item)"

text \<open>
  The \<^verbatim>\<open>while True\<close> loop of \<^verbatim>\<open>parse_category\<close>, its state being the page number,
  the results so far and the requests sent so far. It returns the requests sent and
  either the exception that left the loop or the list returned; \<open>None\<close> is a loop that
  never ends.
\<close>

partial_function (option) parse_category_loop ::
  "parser \<Rightarrow> network \<Rightarrow> string \<Rightarrow> string \<Rightarrow> nat \<Rightarrow> item list \<Rightarrow> page_request list
     \<Rightarrow> (page_request list \<times> (py_error + item list)) option" where
  "parse_category_loop self net category_id proxy page_number results sent =
     (let sent' = sent @ [request_for self category_id page_number proxy];
          data = fetch_page self net category_id page_number proxy
      in case page_products data of
           Inl e \<Rightarrow> Some (sent', Inl e)
         | Inr None \<Rightarrow> Some (sent', Inr results)
         | Inr (Some products) \<Rightarrow>
             (case page_items products of
                Inl e \<Rightarrow> Some (sent', Inl e)
              | Inr new \<Rightarrow>
                  parse_category_loop self net category_id proxy (page_number + 1)
                    (results @ new) sent'))"

definition parse_category ::
  "parser \<Rightarrow> network \<Rightarrow> string \<Rightarrow> string \<Rightarrow> (page_request list \<times> (py_error + item list)) option" where
  "parse_category self net category_id proxy =
     parse_category_loop self net category_id proxy 1 [] []"

section \<open>Running all categories\<close>

text \<open>
  \<^verbatim>\<open>asyncio.gather(*tasks)\<close> without \<^verbatim>\<open>return_exceptions\<close>: the first exception
  raised by a task, in the order \<open>order\<close> in which the tasks complete, is raised to the
  caller; otherwise the call waits for every task and returns their values in the order
  of \<open>tasks\<close>. A task is the outcome of its coroutine: \<open>None\<close> when it never ends,
  so that without an exception the call never returns either. \<open>order\<close> lists indices
  of tasks; a task it leaves out completes after those it names.
\<close>

fun first_raised ::
  "nat list \<Rightarrow> ('s \<times> (py_error + 'a)) option list \<Rightarrow> py_error option" where
  "first_raised [] tasks = None"
| "first_raised (i # order) tasks =
     (if i < length tasks
      then (case tasks ! i of
              Some (sent, Inl e) \<Rightarrow> Some e
            | _ \<Rightarrow> first_raised order tasks)
      else first_raised order tasks)"

definition gather ::
  "nat list \<Rightarrow> ('s \<times> (py_error + 'a)) option list \<Rightarrow> (py_error + ('s \<times> 'a) list) option" where
  "gather order tasks =
     (case first_raised (order @ [0..<length tasks]) tasks of
        Some e \<Rightarrow> Some (Inl e)
      | None \<Rightarrow>
          (case those tasks of
             None \<Rightarrow> None
           | Some finished \<Rightarrow>
               Some (map_result
                 (\<lambda>(sent, r). case r of Inl e \<Rightarrow> Inl e | Inr v \<Rightarrow> Inr (sent, v)) finished)))"

text \<open>
  \<^verbatim>\<open>run\<close>. A file is the list of its lines: \<^verbatim>\<open>read().splitlines()\<close> gives the list
  and each \<^verbatim>\<open>write(... + "\n")\<close> adds one line; opening a file that is not there
  raises. \<open>dumps\<close> stands for \<^verbatim>\<open>json.dumps(item, ensure_ascii=False)\<close>. The report
  holds the requests sent by each crawl that was started, in the order of the tasks.
\<close>

type_synonym filesystem = "string \<rightharpoonup> string list"

datatype run_status = InsufficientProxies | Saved

record run_report =
  outcome :: run_status
  fetched :: "page_request list list"
  files :: filesystem

definition run ::
  "parser \<Rightarrow> (json \<Rightarrow> string) \<Rightarrow> network \<Rightarrow> nat list \<Rightarrow> filesystem
     \<Rightarrow> (py_error + run_report) option" where
  "run self dumps net order fs =
     (case fs (category_ids_file self) of
        None \<Rightarrow> Some (Inl (FileNotFoundError (category_ids_file self)))
      | Some category_ids \<Rightarrow>
          (case fs (proxies_file self) of
             None \<Rightarrow> Some (Inl (FileNotFoundError (proxies_file self)))
           | Some proxies \<Rightarrow>
               if length proxies < length category_ids
               then Some (Inr \<lparr>outcome = InsufficientProxies, fetched = [], files = fs\<rparr>)
               else
                 (let tasks = map (\<lambda>(category_id, proxy). parse_category self net category_id proxy)
                                  (zip category_ids proxies)
                  in case gather order tasks of
                       None \<Rightarrow> None
                     | Some (Inl e) \<Rightarrow> Some (Inl e)
                     | Some (Inr all_results) \<Rightarrow>
                         Some (Inr \<lparr>outcome = Saved, fetched = map fst all_results,
                           files = fs(output_file self \<mapsto>
                             concat (map (\<lambda>(sent, category_results).
                               map (\<lambda>r. dumps (item_json r)) category_results) all_results))\<rparr>))))"

section \<open>Vocabulary of the statements\<close>


text \<open>
  \<^verbatim>\<open>sep.join(pieces)\<close>, to write a URL as the pieces between the occurrences of a
  text; a piece is plain when it has no dollar sign, so that no placeholder starts in it.
\<close>

fun join :: "string \<Rightarrow> string list \<Rightarrow> string" where
  "join sep [] = []"
| "join sep [piece] = piece"
| "join sep (piece # rest) = piece @ sep @ join sep rest"

definition plain :: "string \<Rightarrow> bool" where
  "plain piece = (CHR ''$'' \<notin> set piece)"

section \<open>Example inputs\<close>

text \<open>The parser built under \<^verbatim>\<open>__main__\<close>, with the default city.\<close>

definition main_parser :: parser where
  "main_parser =
     \<lparr>category_ids_file = ''categoryID.txt'', output_file = ''products.jsonl'',
      city_id = ''0c5b2444-70a0-4932-980c-b4dc0d3f02b5'', proxies_file = ''proxy.txt''\<rparr>"

definition shoe :: json where
  "shoe =
     JObj [(''itemId'', JStr ''x1''), (''name'', JStr ''Shoe''), (''inStock'', JBool True),
           (''price'', JObj [(''actual'', JObj [(''amount'', JInt 100)])]),
           (''imageUrls'', JArr [JObj [(''url'', JStr ''http://img/${screen}.${format}'')]])]"

definition shoe_item :: item where
  "shoe_item =
     \<lparr>item_id = JStr ''x1'', item_name = JStr ''Shoe'', item_brand = JStr not_specified,
      item_type = JStr not_specified, item_photos = [''http://img/fullhd.jpg''],
      item_in_stock = JBool True, item_price = JInt 100\<rparr>"

text \<open>A product with no name and a null actual price.\<close>

definition nameless :: json where
  "nameless =
     JObj [(''itemId'', JStr ''x2''), (''inStock'', JBool True),
           (''price'', JObj [(''actual'', JNull)]), (''imageUrls'', JArr [])]"

text \<open>A product whose image template keeps its two placeholders apart.\<close>

definition boot :: json where
  "boot =
     JObj [(''itemId'', JStr ''x3''), (''name'', JStr ''Boot''), (''brand'', JStr ''Acme''),
           (''inStock'', JBool False), (''price'', JObj [(''actual'', JNull)]),
           (''imageUrls'', JArr [JObj [(''url'', JStr ''http://img/${screen}/a.${format}'')]])]"

definition boot_item :: item where
  "boot_item =
     \<lparr>item_id = JStr ''x3'', item_name = JStr ''Boot'', item_brand = JStr ''Acme'',
      item_type = JStr not_specified, item_photos = [''http://img/${screen}/a.${format}''],
      item_in_stock = JBool False, item_price = JNull\<rparr>"

text \<open>A product with two image entries, the first with the text twice.\<close>

definition sandal :: json where
  "sandal =
     JObj [(''itemId'', JStr ''x4''), (''name'', JStr ''Sandal''), (''inStock'', JBool True),
           (''price'', JObj [(''actual'', JNull)]),
           (''imageUrls'',
              JArr [JObj [(''url'', JStr ''http://img/b/${screen}.${format}?v=${screen}.${format}'')],
                    JObj [(''url'', JStr ''http://img/a/${screen}.${format}'')]])]"

definition page_of :: "json list \<Rightarrow> json" where
  "page_of products = JObj [(''data'', JObj [(''products'', JArr products)])]"

text \<open>One page with the shoe, then: an empty page, status 500, or the same page for ever.\<close>

definition net_shoe :: network where
  "net_shoe req =
     (if req_pageNumber req = 1 then HttpReply 200 (Some (page_of [shoe]))
      else HttpReply 200 (Some (page_of [])))"


definition net_endless :: network where
  "net_endless req = HttpReply 200 (Some (page_of [shoe]))"

text \<open>Category A has the nameless product after the shoe on its first page.\<close>

definition net_malformed :: network where
  "net_malformed req =
     (if req_pageNumber req = 1
      then (if req_categoryId req = ''A'' then HttpReply 200 (Some (page_of [shoe, nameless]))
            else HttpReply 200 (Some (page_of [shoe])))
      else HttpReply 200 (Some (page_of [])))"

definition disk :: "string list \<Rightarrow> string list \<Rightarrow> filesystem" where
  "disk category_ids proxies =
     [''categoryID.txt'' \<mapsto> category_ids, ''proxy.txt'' \<mapsto> proxies,
      ''products.jsonl'' \<mapsto> [''old line'']]"

section \<open>Facts about the building blocks\<close>

lemma try_bind_Inr: "try_bind m f = Inr y \<longleftrightarrow> (\<exists>v. m = Inr v \<and> f v = Inr y)"
  by (cases m) (simp_all add: try_bind_def)



subsection \<open>The substitution\<close>

lemma replace_nonempty_absent:
  "\<not> contains old s \<Longrightarrow> replace_nonempty old new s = s"
  by (induction s) auto

lemma contains_prefix:
  "prefix a b \<Longrightarrow> contains b s \<Longrightarrow> contains a s"
proof (induction s)
  case Nil
  then show ?case by simp
next
  case (Cons c cs)
  then show ?case by (auto dest: prefix_order.trans)
qed

lemma template_has_screen: "contains template s \<Longrightarrow> has_placeholder s"
  unfolding has_placeholder_def template_def
  by (rule disjI1, erule contains_prefix[rotated]) simp

lemma contains_first: "contains (c # sub) s \<Longrightarrow> c \<in> set s"
  by (induction s) auto

lemma plain_no_placeholder: "plain s \<Longrightarrow> \<not> has_placeholder s"
  by (auto simp: plain_def has_placeholder_def dest: contains_first)

lemma replace_skip_plain:
  "plain piece \<Longrightarrow>
   replace_nonempty template new (piece @ rest) = piece @ replace_nonempty template new rest"
  by (induction piece) (auto simp: plain_def template_def)

lemma replace_hit:
  "replace_nonempty template new (template @ rest) = new @ replace_nonempty template new rest"
  by (simp add: template_def)

lemma replace_plain: "plain piece \<Longrightarrow> replace_nonempty template new piece = piece"
  using replace_skip_plain[of piece new "[]"] by simp

lemma replace_join:
  "list_all plain pieces \<Longrightarrow>
   replace_nonempty template new (join template pieces) = join new pieces"
  by (induction pieces rule: induct_list012)
     (simp_all add: replace_plain replace_skip_plain replace_hit)

lemma resolve_url_join:
  "list_all plain pieces \<Longrightarrow> resolve_url (join template pieces) = join fullhd_jpg pieces"
  by (simp add: resolve_url_def str_replace_def replace_join) (simp add: template_def)

lemma resolve_url_absent: "\<not> contains template url \<Longrightarrow> resolve_url url = url"
  by (simp add: resolve_url_def str_replace_def replace_nonempty_absent) (simp add: template_def)

lemma plain_join: "list_all plain pieces \<Longrightarrow> plain new \<Longrightarrow> plain (join new pieces)"
  by (induction pieces rule: induct_list012) (auto simp: plain_def)

lemma plain_fullhd: "plain fullhd_jpg"
  by (simp add: plain_def fullhd_jpg_def)

subsection \<open>The item\<close>

lemma photos_of_entries:
  "list_all2 (\<lambda>entry url. subscript entry ''url'' = Inr (JStr url)) entries urls \<Longrightarrow>
   map_result (\<lambda>img. try_bind (subscript img ''url'') replace_method) entries =
     Inr (map resolve_url urls)"
  by (induction entries urls rule: list_all2_induct) (simp_all add: try_bind_def)

lemma photos_of_unchanged:
  "list_all2 (\<lambda>entry url. subscript entry ''url'' = Inr (JStr url) \<and> \<not> contains template url)
     entries urls \<Longrightarrow>
   map_result (\<lambda>img. try_bind (subscript img ''url'') replace_method) entries = Inr urls"
  by (induction entries urls rule: list_all2_induct)
     (simp_all add: try_bind_def resolve_url_absent)




lemma make_item_parts:
  assumes "make_item product = Inr r"
  shows "subscript product ''itemId'' = Inr (item_id r)"
    and "subscript product ''name'' = Inr (item_name r)"
    and "dict_get product ''brand'' (JStr not_specified) = Inr (item_brand r)"
    and "dict_get product ''productType'' (JStr not_specified) = Inr (item_type r)"
    and "photos_of product = Inr (item_photos r)"
    and "subscript product ''inStock'' = Inr (item_in_stock r)"
    and "price_of product = Inr (item_price r)"
  using assms unfolding make_item_def try_bind_Inr by auto



subsection \<open>The loop of a crawl\<close>


lemma loop_break:
  "page_products (fetch_page self net c n p) = Inr None \<Longrightarrow>
   parse_category_loop self net c p n results sent =
     Some (sent @ [request_for self c n p], Inr results)"
  by (subst parse_category_loop.simps) (simp add: Let_def)

lemma loop_raise_item:
  "page_products (fetch_page self net c n p) = Inr (Some products) \<Longrightarrow>
   page_items products = Inl e \<Longrightarrow>
   parse_category_loop self net c p n results sent =
     Some (sent @ [request_for self c n p], Inl e)"
  by (subst parse_category_loop.simps) (simp add: Let_def)

lemma loop_next:
  "page_products (fetch_page self net c n p) = Inr (Some products) \<Longrightarrow>
   page_items products = Inr new \<Longrightarrow>
   parse_category_loop self net c p n results sent =
     parse_category_loop self net c p (n + 1) (results @ new)
       (sent @ [request_for self c n p])"
  by (subst parse_category_loop.simps) (simp add: Let_def)

subsection \<open>Gathering and running\<close>

lemma first_raised_none:
  "\<forall>i<length tasks. \<forall>sent e. tasks ! i \<noteq> Some (sent, Inl e) \<Longrightarrow>
   first_raised order tasks = None"
  by (induction order) (auto split: option.splits sum.splits)


lemma those_returned:
  "those (map (\<lambda>(s, v). Some (s, Inr v)) finished) = Some (map (\<lambda>(s, v). (s, Inr v)) finished)"
  by (induction finished) auto

lemma map_result_returned:
  "map_result (\<lambda>(sent, r). case r of Inl e \<Rightarrow> Inl e | Inr v \<Rightarrow> Inr (sent, v))
     (map (\<lambda>(s, v). (s, Inr v)) finished) = Inr finished"
  by (induction finished) (auto simp: try_bind_def)

lemma gather_returned:
  "gather order (map (\<lambda>(s, v). Some (s, Inr v)) finished) = Some (Inr finished)"
proof -
  have "first_raised (order @ [0..<length finished])
          (map (\<lambda>(s, v). Some (s, Inr v)) finished) = None"
    by (rule first_raised_none) (auto split: prod.splits)
  then show ?thesis
    by (simp add: gather_def those_returned map_result_returned)
qed

lemma gather_nil: "gather order [] = Some (Inr [])"
  using gather_returned[of order "[]"] by simp


lemma run_too_few:
  assumes "fs (category_ids_file self) = Some category_ids"
    and "fs (proxies_file self) = Some proxies"
    and "length proxies < length category_ids"
  shows "run self dumps net order fs =
           Some (Inr \<lparr>outcome = InsufficientProxies, fetched = [], files = fs\<rparr>)"
  using assms by (simp add: run_def)

subsection \<open>The example inputs evaluated\<close>

lemma make_item_shoe: "make_item shoe = Inr shoe_item"
  by (simp add: make_item_def shoe_def shoe_item_def try_bind_def photos_of_def price_of_def
      resolve_url_def str_replace_def template_def fullhd_jpg_def)

lemma make_item_nameless: "make_item nameless = Inl (KeyError ''name'')"
  by (simp add: make_item_def nameless_def try_bind_def)

lemma make_item_boot: "make_item boot = Inr boot_item"
  by (simp add: make_item_def boot_def boot_item_def try_bind_def photos_of_def price_of_def
      resolve_url_def str_replace_def template_def fullhd_jpg_def)

lemma page_products_page_of:
  "page_products (page_of products) = Inr (if products = [] then None else Some (JArr products))"
  by (simp add: page_products_def page_of_def try_bind_def)

lemma page_items_shoe: "page_items (JArr [shoe]) = Inr [shoe_item]"
  by (simp add: page_items_def try_bind_def make_item_shoe)

lemma page_items_malformed: "page_items (JArr [shoe, nameless]) = Inl (KeyError ''name'')"
  by (simp add: page_items_def try_bind_def make_item_shoe make_item_nameless)

lemma crawl_two_pages:
  assumes "page_products (fetch_page self net c 1 p) = Inr (Some products)"
    and "page_items products = Inr new"
    and "page_products (fetch_page self net c 2 p) = Inr None"
  shows "parse_category self net c p =
           Some ([request_for self c 1 p, request_for self c 2 p], Inr new)"
  unfolding parse_category_def
  using loop_next[OF assms(1,2), of "[]" "[]"]
    loop_break[of self net c 2 p new "[request_for self c 1 p]"] assms(3)
  by (simp add: numeral_2_eq_2)

lemma crawl_shoe:
  "parse_category main_parser net_shoe c p =
     Some ([request_for main_parser c 1 p, request_for main_parser c 2 p], Inr [shoe_item])"
  by (rule crawl_two_pages[where products = "JArr [shoe]"])
     (simp_all add: fetch_page_def net_shoe_def request_for_def page_products_page_of
        page_items_shoe)

lemma crawl_malformed_A:
  "parse_category main_parser net_malformed ''A'' p =
     Some ([request_for main_parser ''A'' 1 p], Inl (KeyError ''name''))"
  unfolding parse_category_def
  using loop_raise_item[of main_parser net_malformed "''A''" 1 p "JArr [shoe, nameless]"
      "KeyError ''name''" "[]" "[]"]
  by (simp add: fetch_page_def net_malformed_def request_for_def page_products_page_of
      page_items_malformed)


lemma endless_loop:
  assumes "parse_category_loop self net c p n results sent = Some y"
  shows "net \<noteq> net_endless"
  apply (rule parse_category_loop.raw_induct
      [where P = "\<lambda>self net c p n results sent y. net \<noteq> net_endless", OF _ assms])
  subgoal premises prems for loop s nt c p n r st y
  proof
    assume nt: "nt = net_endless"
    have page: "page_products (fetch_page s net_endless c n p) = Inr (Some (JArr [shoe]))"
      by (simp add: fetch_page_def net_endless_def page_products_page_of)
    from prems(2) have "loop s net_endless c p (n + 1) (r @ [shoe_item])
        (st @ [request_for s c n p]) = Some y"
      by (simp add: nt page page_items_shoe)
    from prems(1)[OF this] show False by simp
  qed
  done

lemma crawl_endless: "parse_category self net_endless c p = None"
  using endless_loop[of self net_endless c p 1 "[]" "[]"]
  by (cases "parse_category self net_endless c p") (auto simp: parse_category_def)

lemma main_parser_fields:
  "category_ids_file main_parser = ''categoryID.txt''"
  "proxies_file main_parser = ''proxy.txt''"
  "output_file main_parser = ''products.jsonl''"
  by (simp_all add: main_parser_def)

section \<open>The claims\<close>

subsection \<open>C1: an item without a required field\<close>




subsection \<open>C2: fewer proxies than categories\<close>

text \<open>
  Claim C2. With fewer proxies than categories \<^verbatim>\<open>run\<close> reports the lack of proxies and
  returns before any crawl is started: no crawl has sent a request, whatever the network
  and the completion order would have been.
\<close>

theorem too_few_proxies_no_crawl:
  assumes "fs (category_ids_file self) = Some category_ids"
    and "fs (proxies_file self) = Some proxies"
    and "length proxies < length category_ids"
  shows "\<exists>report. run self dumps net order fs = Some (Inr report) \<and>
           outcome report = InsufficientProxies \<and> fetched report = []"
  using run_too_few[OF assms] by simp

text \<open>The theorem at two categories and one proxy.\<close>

theorem too_few_proxies_no_crawl_witness:
  "\<forall>dumps net order. \<exists>report.
     run main_parser dumps net order (disk [''A'', ''B''] [''P1'']) = Some (Inr report) \<and>
     outcome report = InsufficientProxies \<and> fetched report = []"
proof (intro allI)
  fix dumps net order
  show "\<exists>report.
     run main_parser dumps net order (disk [''A'', ''B''] [''P1'']) = Some (Inr report) \<and>
     outcome report = InsufficientProxies \<and> fetched report = []"
    by (rule too_few_proxies_no_crawl[where category_ids = "[''A'', ''B'']" and proxies = "[''P1'']"])
       (simp_all add: disk_def main_parser_fields)
qed

subsection \<open>C3: a page that cannot be fetched\<close>



subsection \<open>C4: resolving the image templates\<close>

text \<open>
  Claim C4, as amended. The substitution replaces the one text
  \<^verbatim>\<open>${screen}.${format}\<close> by \<^verbatim>\<open>fullhd.jpg\<close>. For an item whose image entries are
  URLs in which the placeholders occur only so, side by side with the dot between them
  (the pieces between the occurrences having no dollar sign), the photos are one URL
  per entry, in the order of the entries, each occurrence replaced and no placeholder
  left. A URL that does not contain that text is left as it is, and an item whose
  image entries are all such URLs has them as its photos, one per entry in their order.
\<close>

theorem contiguous_templates_resolved:
  assumes "map_of kvs ''imageUrls'' = Some (JArr entries)"
    and "list_all2 (\<lambda>entry pieces. subscript entry ''url'' = Inr (JStr (join template pieces))
           \<and> list_all plain pieces) entries templates"
  shows "photos_of (JObj kvs) = Inr (map (join fullhd_jpg) templates) \<and>
         length (map (join fullhd_jpg) templates) = length entries \<and>
         list_all (\<lambda>photo. \<not> has_placeholder photo) (map (join fullhd_jpg) templates) \<and>
         (\<forall>url. \<not> contains template url \<longrightarrow> resolve_url url = url) \<and>
         (\<forall>kvs' others urls.
            map_of kvs' ''imageUrls'' = Some (JArr others) \<and>
            list_all2 (\<lambda>entry url. subscript entry ''url'' = Inr (JStr url)
              \<and> \<not> contains template url) others urls \<longrightarrow>
            photos_of (JObj kvs') = Inr urls \<and> length urls = length others)"
proof -
  have urls: "list_all2 (\<lambda>entry url. subscript entry ''url'' = Inr (JStr url)) entries
                (map (join template) templates)"
    using assms(2) by (simp add: list_all2_map2 list_all2_mono)
  have "map resolve_url (map (join template) templates) = map (join fullhd_jpg) templates"
    using assms(2) by (induction entries templates rule: list_all2_induct)
      (simp_all add: resolve_url_join)
  with photos_of_entries[OF urls] assms(1)
  have photos: "photos_of (JObj kvs) = Inr (map (join fullhd_jpg) templates)"
    by (simp add: photos_of_def try_bind_def)
  have count: "length (map (join fullhd_jpg) templates) = length entries"
    using assms(2) by (simp add: list_all2_lengthD)
  have resolved: "list_all (\<lambda>photo. \<not> has_placeholder photo) (map (join fullhd_jpg) templates)"
    using assms(2) by (induction entries templates rule: list_all2_induct)
      (simp_all add: plain_no_placeholder plain_join plain_fullhd)
  have unchanged: "\<forall>url. \<not> contains template url \<longrightarrow> resolve_url url = url"
    by (simp add: resolve_url_absent)
  have passed: "\<forall>kvs' others urls.
            map_of kvs' ''imageUrls'' = Some (JArr others) \<and>
            list_all2 (\<lambda>entry url. subscript entry ''url'' = Inr (JStr url)
              \<and> \<not> contains template url) others urls \<longrightarrow>
            photos_of (JObj kvs') = Inr urls \<and> length urls = length others"
  proof (intro allI impI, elim conjE)
    fix kvs' others urls
    assume "map_of kvs' ''imageUrls'' = Some (JArr others)"
      and *: "list_all2 (\<lambda>entry url. subscript entry ''url'' = Inr (JStr url)
              \<and> \<not> contains template url) others urls"
    then show "photos_of (JObj kvs') = Inr urls \<and> length urls = length others"
      using photos_of_unchanged[OF *] list_all2_lengthD[OF *]
      by (simp add: photos_of_def try_bind_def)
  qed
  show ?thesis
    by (rule conjI[OF photos conjI[OF count conjI[OF resolved conjI[OF unchanged passed]]]])
qed

text \<open>
  The theorem at the sandal, whose two entries come out in their order with every
  occurrence replaced, and at two URLs without the text, which come out as they are.
\<close>

theorem contiguous_templates_resolved_witness:
  "photos_of sandal =
     Inr [''http://img/b/fullhd.jpg?v=fullhd.jpg'', ''http://img/a/fullhd.jpg''] \<and>
   \<not> has_placeholder ''http://img/b/fullhd.jpg?v=fullhd.jpg'' \<and>
   \<not> has_placeholder ''http://img/a/fullhd.jpg'' \<and>
   \<not> contains template ''http://img/${screen}/a.${format}'' \<and>
   resolve_url ''http://img/${screen}/a.${format}'' = ''http://img/${screen}/a.${format}'' \<and>
   photos_of (JObj [(''imageUrls'',
       JArr [JObj [(''url'', JStr ''http://img/${screen}/a.${format}'')],
             JObj [(''url'', JStr ''http://img/fullhd.jpg'')]])]) =
     Inr [''http://img/${screen}/a.${format}'', ''http://img/fullhd.jpg'']"
proof -
  have entries: "map_of [(''itemId'', JStr ''x4''), (''name'', JStr ''Sandal''),
           (''inStock'', JBool True), (''price'', JObj [(''actual'', JNull)]),
           (''imageUrls'',
              JArr [JObj [(''url'', JStr ''http://img/b/${screen}.${format}?v=${screen}.${format}'')],
                    JObj [(''url'', JStr ''http://img/a/${screen}.${format}'')]])] ''imageUrls'' =
      Some (JArr [JObj [(''url'', JStr ''http://img/b/${screen}.${format}?v=${screen}.${format}'')],
                    JObj [(''url'', JStr ''http://img/a/${screen}.${format}'')]])"
    by simp
  have pieces: "list_all2 (\<lambda>entry pieces. subscript entry ''url'' = Inr (JStr (join template pieces))
           \<and> list_all plain pieces)
      [JObj [(''url'', JStr ''http://img/b/${screen}.${format}?v=${screen}.${format}'')],
       JObj [(''url'', JStr ''http://img/a/${screen}.${format}'')]]
      [[''http://img/b/'', ''?v='', []], [''http://img/a/'', []]]"
    by (simp add: template_def plain_def)
  have absent: "\<not> contains template ''http://img/${screen}/a.${format}''"
    "\<not> contains template ''http://img/fullhd.jpg''"
    by (simp_all add: template_def)
  have others: "map_of [(''imageUrls'',
       JArr [JObj [(''url'', JStr ''http://img/${screen}/a.${format}'')],
             JObj [(''url'', JStr ''http://img/fullhd.jpg'')]])] ''imageUrls'' =
      Some (JArr [JObj [(''url'', JStr ''http://img/${screen}/a.${format}'')],
             JObj [(''url'', JStr ''http://img/fullhd.jpg'')]]) \<and>
     list_all2 (\<lambda>entry url. subscript entry ''url'' = Inr (JStr url)
              \<and> \<not> contains template url)
       [JObj [(''url'', JStr ''http://img/${screen}/a.${format}'')],
        JObj [(''url'', JStr ''http://img/fullhd.jpg'')]]
       [''http://img/${screen}/a.${format}'', ''http://img/fullhd.jpg'']"
    using absent by simp
  note resolved = contiguous_templates_resolved[OF entries pieces]
  from resolved have "photos_of sandal =
     Inr [''http://img/b/fullhd.jpg?v=fullhd.jpg'', ''http://img/a/fullhd.jpg''] \<and>
   \<not> has_placeholder ''http://img/b/fullhd.jpg?v=fullhd.jpg'' \<and>
   \<not> has_placeholder ''http://img/a/fullhd.jpg''"
    by (simp add: sandal_def fullhd_jpg_def)
  moreover from resolved absent(1)
  have "resolve_url ''http://img/${screen}/a.${format}'' = ''http://img/${screen}/a.${format}''"
    by blast
  moreover from resolved others
  have "photos_of (JObj [(''imageUrls'',
       JArr [JObj [(''url'', JStr ''http://img/${screen}/a.${format}'')],
             JObj [(''url'', JStr ''http://img/fullhd.jpg'')]])]) =
     Inr [''http://img/${screen}/a.${format}'', ''http://img/fullhd.jpg'']"
    by blast
  ultimately show ?thesis using absent(1) by blast
qed

text \<open>
  Claim C4 as stated fails when the two placeholders are apart: the entry of the boot
  has both, and its photo is the template unchanged, both placeholders still in it.
\<close>

theorem separated_placeholders_remain:
  "contains ''${screen}'' ''http://img/${screen}/a.${format}'' \<and>
   contains ''${format}'' ''http://img/${screen}/a.${format}'' \<and>
   make_item boot = Inr boot_item \<and>
   item_photos boot_item = [''http://img/${screen}/a.${format}''] \<and>
   has_placeholder ''http://img/${screen}/a.${format}''"
  by (simp add: make_item_boot has_placeholder_def) (simp add: boot_item_def)

subsection \<open>C5: one result per category, in the order of the categories\<close>

text \<open>
  Claim C5, as amended. With at least as many proxies as categories, and provided the
  crawl of every category with the proxy at the same position returns a list, \<^verbatim>\<open>run\<close>
  saves, for every completion order, the lists of the categories one after the other in
  the order of the category list; the proxies past the number of categories play no part.
\<close>

theorem results_in_category_order:
  assumes "fs (category_ids_file self) = Some category_ids"
    and "fs (proxies_file self) = Some proxies"
    and "length category_ids \<le> length proxies"
    and "length sents = length category_ids"
    and "length results = length category_ids"
    and "\<forall>i<length category_ids.
           parse_category self net (category_ids ! i) (proxies ! i) =
             Some (sents ! i, Inr (results ! i))"
  shows "run self dumps net order fs =
           Some (Inr \<lparr>outcome = Saved, fetched = sents,
                      files = fs(output_file self \<mapsto>
                        concat (map (map (\<lambda>r. dumps (item_json r))) results))\<rparr>)"
proof -
  have tasks: "map (\<lambda>(category_id, proxy). parse_category self net category_id proxy)
                 (zip category_ids proxies) =
               map (\<lambda>(s, v). Some (s, Inr v)) (zip sents results)"
    using assms(3-6) by (intro nth_equalityI) auto
  have lines: "map (\<lambda>(sent, category_results). map (\<lambda>r. dumps (item_json r)) category_results)
                 (zip sents results) = map (map (\<lambda>r. dumps (item_json r))) results"
    using assms(4,5) by (intro nth_equalityI) auto
  have sent: "map fst (zip sents results) = sents"
    using assms(4,5) by simp
  show ?thesis
    using assms(1-3) by (simp add: run_def tasks gather_returned lines sent)
qed

text \<open>The theorem at two categories and three proxies, every category having the shoe.\<close>

theorem results_in_category_order_witness:
  "\<forall>dumps order.
     run main_parser dumps net_shoe order (disk [''A'', ''B''] [''P1'', ''P2'', ''P3'']) =
       Some (Inr \<lparr>outcome = Saved,
         fetched = [[request_for main_parser ''A'' 1 ''P1'', request_for main_parser ''A'' 2 ''P1''],
                    [request_for main_parser ''B'' 1 ''P2'', request_for main_parser ''B'' 2 ''P2'']],
         files = (disk [''A'', ''B''] [''P1'', ''P2'', ''P3''])(''products.jsonl'' \<mapsto>
                   [dumps (item_json shoe_item), dumps (item_json shoe_item)])\<rparr>)"
proof (intro allI)
  fix dumps order
  show "run main_parser dumps net_shoe order (disk [''A'', ''B''] [''P1'', ''P2'', ''P3'']) =
       Some (Inr \<lparr>outcome = Saved,
         fetched = [[request_for main_parser ''A'' 1 ''P1'', request_for main_parser ''A'' 2 ''P1''],
                    [request_for main_parser ''B'' 1 ''P2'', request_for main_parser ''B'' 2 ''P2'']],
         files = (disk [''A'', ''B''] [''P1'', ''P2'', ''P3''])(''products.jsonl'' \<mapsto>
                   [dumps (item_json shoe_item), dumps (item_json shoe_item)])\<rparr>)"
    using results_in_category_order[where self = main_parser and net = net_shoe
        and fs = "disk [''A'', ''B''] [''P1'', ''P2'', ''P3'']"
        and category_ids = "[''A'', ''B'']" and proxies = "[''P1'', ''P2'', ''P3'']"
        and sents = "[[request_for main_parser ''A'' 1 ''P1'', request_for main_parser ''A'' 2 ''P1''],
                    [request_for main_parser ''B'' 1 ''P2'', request_for main_parser ''B'' 2 ''P2'']]"
        and results = "[[shoe_item], [shoe_item]]" and dumps = dumps and order = order]
    by (simp add: disk_def main_parser_fields crawl_shoe less_Suc_eq numeral_2_eq_2)
qed

text \<open>
  Claim C5 as stated fails where a crawl returns no list. A category whose every page
  has products keeps its crawl running for ever, and \<^verbatim>\<open>run\<close> never returns; a
  category with a malformed item makes \<^verbatim>\<open>run\<close> raise. Neither gives a result per
  category, though there is a proxy for the one category.
\<close>

theorem no_result_per_category:
  "run main_parser (\<lambda>j. ''{}'') net_endless [0] (disk [''A''] [''P1'']) = None \<and>
   run main_parser (\<lambda>j. ''{}'') net_malformed [0] (disk [''A''] [''P1'']) =
     Some (Inl (KeyError ''name''))"
  by (simp add: crawl_endless crawl_malformed_A run_def disk_def main_parser_fields gather_def)

subsection \<open>C6: the price\<close>



subsection \<open>C7: a URL without placeholders\<close>

text \<open>
  Claim C7. On a URL that contains neither placeholder the substitution changes
  nothing.
\<close>

theorem resolve_url_noop:
  "\<not> has_placeholder s \<Longrightarrow> resolve_url s = s"
  using template_has_screen[of s] replace_nonempty_absent[of template s fullhd_jpg]
  by (auto simp: resolve_url_def str_replace_def template_def)

text \<open>The theorem at a URL already resolved.\<close>

theorem resolve_url_noop_witness:
  "\<not> has_placeholder ''http://img/fullhd.jpg'' \<and>
   resolve_url ''http://img/fullhd.jpg'' = ''http://img/fullhd.jpg''"
  using resolve_url_noop[of "''http://img/fullhd.jpg''"]
  by (simp add: has_placeholder_def)

subsection \<open>C8: brand and type\<close>

text \<open>
  Claim C8. Whenever the five required parts of a product can be read, the item is
  built whether or not the product has a brand or a type: each of the two is the value
  of the product when the key is there, and the text for "not specified" when it is not.
\<close>

theorem brand_type_default:
  assumes "subscript product ''itemId'' = Inr v_id"
    and "subscript product ''name'' = Inr v_name"
    and "photos_of product = Inr v_photos"
    and "subscript product ''inStock'' = Inr v_stock"
    and "price_of product = Inr v_price"
  shows "\<exists>kvs. product = JObj kvs \<and>
           make_item product =
             Inr \<lparr>item_id = v_id, item_name = v_name,
                  item_brand = (case map_of kvs ''brand'' of
                                  None \<Rightarrow> JStr not_specified | Some v \<Rightarrow> v),
                  item_type = (case map_of kvs ''productType'' of
                                  None \<Rightarrow> JStr not_specified | Some v \<Rightarrow> v),
                  item_photos = v_photos, item_in_stock = v_stock, item_price = v_price\<rparr>"
proof (cases product)
  case (JObj kvs)
  have "dict_get product ''brand'' (JStr not_specified) =
          Inr (case map_of kvs ''brand'' of None \<Rightarrow> JStr not_specified | Some v \<Rightarrow> v)"
    and "dict_get product ''productType'' (JStr not_specified) =
          Inr (case map_of kvs ''productType'' of None \<Rightarrow> JStr not_specified | Some v \<Rightarrow> v)"
    by (simp_all add: JObj split: option.splits)
  with assms have "make_item product =
             Inr \<lparr>item_id = v_id, item_name = v_name,
                  item_brand = (case map_of kvs ''brand'' of
                                  None \<Rightarrow> JStr not_specified | Some v \<Rightarrow> v),
                  item_type = (case map_of kvs ''productType'' of
                                  None \<Rightarrow> JStr not_specified | Some v \<Rightarrow> v),
                  item_photos = v_photos, item_in_stock = v_stock, item_price = v_price\<rparr>"
    by (simp add: make_item_def try_bind_def)
  with JObj show ?thesis by blast
qed (use assms(1) in simp_all)

text \<open>
  The theorem at the shoe, which has neither brand nor type, and at the boot, which has
  a brand and no type.
\<close>

theorem brand_type_default_witness:
  "(\<exists>r. make_item shoe = Inr r \<and> item_brand r = JStr not_specified \<and>
        item_type r = JStr not_specified) \<and>
   (\<exists>r. make_item boot = Inr r \<and> item_brand r = JStr ''Acme'' \<and>
        item_type r = JStr not_specified)"
proof -
  have "subscript shoe ''itemId'' = Inr (JStr ''x1'')" "subscript shoe ''name'' = Inr (JStr ''Shoe'')"
    "subscript shoe ''inStock'' = Inr (JBool True)"
    by (simp_all add: shoe_def)
  from brand_type_default[OF this(1,2) make_item_parts(5)[OF make_item_shoe] this(3)
      make_item_parts(7)[OF make_item_shoe]]
  have shoe: "\<exists>r. make_item shoe = Inr r \<and> item_brand r = JStr not_specified \<and>
        item_type r = JStr not_specified"
    by (auto simp: shoe_def)
  have "subscript boot ''itemId'' = Inr (JStr ''x3'')" "subscript boot ''name'' = Inr (JStr ''Boot'')"
    "subscript boot ''inStock'' = Inr (JBool False)"
    by (simp_all add: boot_def)
  from brand_type_default[OF this(1,2) make_item_parts(5)[OF make_item_boot] this(3)
      make_item_parts(7)[OF make_item_boot]]
  have "\<exists>r. make_item boot = Inr r \<and> item_brand r = JStr ''Acme'' \<and>
        item_type r = JStr not_specified"
    by (auto simp: boot_def)
  with shoe show ?thesis by blast
qed

subsection \<open>C9: the output file when proxies are lacking\<close>

text \<open>
  Claim C9. When \<^verbatim>\<open>run\<close> returns for lack of proxies, the files are what they were:
  the output file is neither created nor emptied nor written.
\<close>

theorem too_few_proxies_files_untouched:
  assumes "fs (category_ids_file self) = Some category_ids"
    and "fs (proxies_file self) = Some proxies"
    and "length proxies < length category_ids"
  shows "\<exists>report. run self dumps net order fs = Some (Inr report) \<and> files report = fs \<and>
           files report (output_file self) = fs (output_file self)"
  using run_too_few[OF assms] by simp

text \<open>The theorem at two categories and one proxy, the output file holding an old line.\<close>

theorem too_few_proxies_files_untouched_witness:
  "\<forall>dumps net order. \<exists>report.
     run main_parser dumps net order (disk [''A'', ''B''] [''P1'']) = Some (Inr report) \<and>
     files report ''products.jsonl'' = Some [''old line'']"
proof (intro allI)
  fix dumps net order
  show "\<exists>report.
     run main_parser dumps net order (disk [''A'', ''B''] [''P1'']) = Some (Inr report) \<and>
     files report ''products.jsonl'' = Some [''old line'']"
    using too_few_proxies_files_untouched[where self = main_parser
        and fs = "disk [''A'', ''B''] [''P1'']" and category_ids = "[''A'', ''B'']"
        and proxies = "[''P1'']" and dumps = dumps and net = net and order = order]
    by (auto simp: disk_def main_parser_fields)
qed

subsection \<open>C10: no category at all\<close>

text \<open>
  Claim C10. With an empty list of categories, whatever the proxies, \<^verbatim>\<open>run\<close> starts no
  crawl, sends no request and completes, leaving the output file with no line in place
  of what it held.
\<close>

theorem no_categories:
  assumes "fs (category_ids_file self) = Some []"
    and "fs (proxies_file self) = Some proxies"
  shows "run self dumps net order fs =
           Some (Inr \<lparr>outcome = Saved, fetched = [],
                      files = fs(output_file self \<mapsto> [])\<rparr>)"
  using assms by (simp add: run_def gather_nil)

text \<open>The theorem at no category and one proxy, the output file holding an old line.\<close>

theorem no_categories_witness:
  "disk [] [''P1''] ''products.jsonl'' = Some [''old line''] \<and>
   (\<forall>dumps net order.
      run main_parser dumps net order (disk [] [''P1'']) =
        Some (Inr \<lparr>outcome = Saved, fetched = [],
                   files = (disk [] [''P1''])(''products.jsonl'' \<mapsto> [])\<rparr>))"
proof (intro conjI allI)
  fix dumps net order
  show "run main_parser dumps net order (disk [] [''P1'']) =
        Some (Inr \<lparr>outcome = Saved, fetched = [],
                   files = (disk [] [''P1''])(''products.jsonl'' \<mapsto> [])\<rparr>)"
    using no_categories[where self = main_parser and fs = "disk [] [''P1'']"
        and proxies = "[''P1'']" and dumps = dumps and net = net and order = order]
    by (simp add: disk_def main_parser_fields)
qed (simp add: disk_def)

end
